theory Spec2Isabelle
  imports Main "HOL-Library.Word"
begin

section \<open>C strings and the library routines used by config.cc\<close>

text \<open>
  A C string is modelled by the list of its characters before the terminating NUL, so
  \<open>s[n]\<close> is the terminator exactly when \<open>n = length s\<close>. The stack buffers
  \<open>optionName\<close> and \<open>optionValue\<close>, which the source declares with the length of the
  token, are modelled as strings of any length: the model gives the text that \<open>sscanf\<close>
  stores and does not follow the bytes in memory. The diagnostics written by \<open>dPrintf\<close>
  and \<open>fprintf( stderr, ... )\<close> are left out, they do not influence control flow or the
  configuration.

  The routines of the C library (\<open>tolower\<close>, \<open>isspace\<close>, \<open>strcmp\<close>, \<open>strcasecmp\<close>,
  \<open>sscanf\<close>) follow ISO C / POSIX in the "C" locale.
\<close>

definition tolower :: "char \<Rightarrow> char" where
  "tolower c =
     (case map_of (zip ''ABCDEFGHIJKLMNOPQRSTUVWXYZ'' ''abcdefghijklmnopqrstuvwxyz'') c of
        None \<Rightarrow> c
      | Some l \<Rightarrow> l)"

definition isspace :: "char \<Rightarrow> bool" where
  "isspace c = (c \<in> set [CHR '' '', CHR 0x09, CHR 0x0A, CHR 0x0B, CHR 0x0C, CHR 0x0D])"

definition isdigit :: "char \<Rightarrow> bool" where
  "isdigit c = (c \<in> set ''0123456789'')"

text \<open>The source uses \<open>strcmp\<close> and \<open>strcasecmp\<close> only in tests \<open>... == 0\<close>.
  \<open>strcmp( a, b ) == 0\<close> is equality of the two strings and is written \<open>a = b\<close>;
  \<open>strcasecmp( a, b ) == 0\<close> is equality after \<open>tolower\<close> on every byte.\<close>

definition strcasecmp_eq0 :: "string \<Rightarrow> string \<Rightarrow> bool" where
  "strcasecmp_eq0 a b = (map tolower a = map tolower b)"

section \<open>The option registry\<close>

text \<open>
  \<open>Config::OpCodes\<close> and \<open>Config::OptionType\<close> are declared in config.hh; the
  constructors below are the enumerators that config.cc names. The enumerator \<open>None\<close> of
  \<open>OptionType\<close> is written \<open>None_type\<close>.
\<close>

datatype OpCodes =
    oBadOption
  | oChunk_max_size
  | oBundle_max_payload_size
  | oBundle_compression_method
  | oRuntime_threads
  | oRuntime_cacheSize
  | oRuntime_exchange

datatype OptionType = Runtime | Storable | None_type

text \<open>One row of \<open>ConfigHelper::keywords\<close>. The help text and the rendered default value
  of a row are used by \<open>showHelp\<close> only and are not part of the model.\<close>

record keyword =
  name :: string
  opcode :: OpCodes
  type :: OptionType

text \<open>The table, in the order of the source. The last row of the source,
  \<open>{ NULL, oBadOption, None }\<close>, is the terminator that every loop over the table stops at;
  it is the end of the list here. (The table is named \<open>keywords_table\<close>.)\<close>

definition keywords_table :: "keyword list" where
  "keywords_table =
    [ \<lparr>name = ''chunk.max_size'', opcode = oChunk_max_size, type = Storable\<rparr>,
      \<lparr>name = ''bundle.max_payload_size'', opcode = oBundle_max_payload_size, type = Storable\<rparr>,
      \<lparr>name = ''bundle.compression_method'', opcode = oBundle_compression_method,
        type = Storable\<rparr>,
      \<lparr>name = ''compression'', opcode = oBundle_compression_method, type = Storable\<rparr>,
      \<lparr>name = ''threads'', opcode = oRuntime_threads, type = Runtime\<rparr>,
      \<lparr>name = ''cache-size'', opcode = oRuntime_cacheSize, type = Runtime\<rparr>,
      \<lparr>name = ''exchange'', opcode = oRuntime_exchange, type = Runtime\<rparr> ]"

text \<open>The loop of \<open>Config::parseToken\<close> over the rows from index \<open>i\<close> on: the first row
  whose name matches decides; a row of another type leaves the loop (\<open>break\<close>) and
  \<open>oBadOption\<close> is returned.\<close>

fun parseToken_loop :: "keyword list \<Rightarrow> string \<Rightarrow> OptionType \<Rightarrow> OpCodes" where
  "parseToken_loop [] option ty = oBadOption"
| "parseToken_loop (k # ks) option ty =
     (if strcasecmp_eq0 option (name k)
      then (if type k \<noteq> ty then oBadOption else opcode k)
      else parseToken_loop ks option ty)"

definition parseToken :: "string \<Rightarrow> OptionType \<Rightarrow> OpCodes" where
  "parseToken option ty = parseToken_loop keywords_table option ty"

section \<open>The three \<open>sscanf\<close> calls of \<open>Config::parseOption\<close>\<close>

text \<open>
  \<open>size_t\<close> is the 64-bit unsigned type of the LP64 platforms zbackup is built for;
  \<open>unsigned int\<close> has 32 bits.
\<close>

type_synonym size_t = "64 word"

type_synonym u_int = "32 word"

definition EOF :: int where
  "EOF = - 1"

text \<open>\<open>sscanf( option, "%[^=]=%s", optionName, optionValue )\<close>.
  \<open>%[^=]\<close> takes the longest non-empty run of bytes other than \<open>=\<close> (no white space is
  skipped); the literal \<open>=\<close> must follow; \<open>%s\<close> skips white space and takes the longest
  non-empty run of bytes that are not white space. The result is the number of items
  assigned (or \<open>EOF\<close> on empty input) with the two buffers; a buffer that was not assigned
  is shown as the empty string and is never read by the caller.\<close>

definition sscanf_name_value :: "string \<Rightarrow> int \<times> string \<times> string" where
  "sscanf_name_value s =
     (if s = [] then (EOF, [], [])
      else
        let optionName = takeWhile (\<lambda>c. c \<noteq> CHR ''='') s;
            r = dropWhile (\<lambda>c. c \<noteq> CHR ''='') s
        in if optionName = [] then (0, [], [])
           else (case r of
                   [] \<Rightarrow> (1, optionName, [])
                 | eq # r' \<Rightarrow>
                     let optionValue = takeWhile (\<lambda>c. \<not> isspace c) (dropWhile isspace r')
                     in if optionValue = [] then (1, optionName, [])
                        else (2, optionName, optionValue)))"

text \<open>The value of a run of decimal digits, as a natural number.\<close>

definition decimal :: "string \<Rightarrow> nat" where
  "decimal ds = foldl (\<lambda>a c. 10 * a + (of_char c - 48)) 0 ds"

text \<open>The largest value of \<open>size_t\<close>, \<open>2 ^ 64 - 1\<close>.\<close>

definition SIZE_MAX :: size_t where
  "SIZE_MAX = - 1"

text \<open>The conversion \<open>%zu\<close>: white space is skipped, then an optionally signed run of
  decimal digits is taken, in the format of the subject sequence of \<open>strtoul\<close> with base 10
  (ISO C, 7.21.6.2). With a minus sign the value is negated in the unsigned type, as
  \<open>strtoul\<close> does, so \<open>-1\<close> converts to \<open>SIZE_MAX\<close>. For a number that \<open>size_t\<close> cannot
  represent ISO C defines no result; the C library that zbackup is linked with (glibc)
  converts the digits with \<open>strtoul\<close>, which gives \<open>ULONG_MAX\<close> there, with or without a
  sign, and the conversion succeeds.\<close>

datatype zu_result =
    Zu_input_failure
  | Zu_matching_failure
  | Zu_value size_t string

definition scan_zu :: "string \<Rightarrow> zu_result" where
  "scan_zu s =
     (let s1 = dropWhile isspace s
      in case s1 of
           [] \<Rightarrow> Zu_input_failure
         | c # r \<Rightarrow>
             let neg = (c = CHR ''-'');
                 s2 = (if c = CHR ''-'' \<or> c = CHR ''+'' then r else s1);
                 ds = takeWhile isdigit s2;
                 rest = dropWhile isdigit s2
             in if ds = [] then Zu_matching_failure
                else if decimal ds < 2 ^ 64
                then Zu_value (if neg then - word_of_nat (decimal ds)
                               else word_of_nat (decimal ds)) rest
                else Zu_value SIZE_MAX rest)"

text \<open>\<open>sscanf( optionValue, "%zu %n", &sizeValue, &n )\<close>: the result, the new
  \<open>sizeValue\<close> (the old one when it was not assigned) and \<open>n\<close>, the number of bytes
  consumed. \<open>n\<close> is assigned only when the result is 1; it is shown as 0 otherwise, and
  the caller reads it only after a result of 1.\<close>

definition sscanf_zu_n :: "string \<Rightarrow> size_t \<Rightarrow> int \<times> size_t \<times> nat" where
  "sscanf_zu_n s sizeValue =
     (case scan_zu s of
        Zu_input_failure \<Rightarrow> (EOF, sizeValue, 0)
      | Zu_matching_failure \<Rightarrow> (0, sizeValue, 0)
      | Zu_value v rest \<Rightarrow>
          let rest' = dropWhile isspace rest
          in (1, v, length s - length rest'))"

text \<open>\<open>sscanf( optionValue, "%zu %15s %n", &sizeValue, suffix, &n )\<close>: as above, with the
  word of at most 15 bytes taken by \<open>%15s\<close>. \<open>n\<close> is assigned only when the result
  is 2.\<close>

definition sscanf_zu_s_n :: "string \<Rightarrow> size_t \<Rightarrow> int \<times> size_t \<times> string \<times> nat" where
  "sscanf_zu_s_n s sizeValue =
     (case scan_zu s of
        Zu_input_failure \<Rightarrow> (EOF, sizeValue, [], 0)
      | Zu_matching_failure \<Rightarrow> (0, sizeValue, [], 0)
      | Zu_value v rest \<Rightarrow>
          let r1 = dropWhile isspace rest
          in if r1 = [] then (1, v, [], 0)
             else
               let suffix = take 15 (takeWhile (\<lambda>c. \<not> isspace c) r1);
                   r2 = dropWhile isspace (drop (length suffix) r1)
               in (2, v, suffix, length s - length r2))"

section \<open>The configuration\<close>

text \<open>Modelled from the spec: the declaration of the persisted record \<open>ConfigInfo\<close> (a
  generated protocol-buffer class) is not in config.cc. The spec gives it "fields for
  chunk size, bundle payload size, compression method name, etc."; the three fields are
  the ones the option table names, and config.cc writes the last one only.\<close>

record ConfigInfo =
  chunk_max_size :: nat
  bundle_max_payload_size :: nat
  bundle_compression_method :: string

text \<open>The elements of \<open>runtime.exchange\<close>, a bit set indexed by the enumerators
  \<open>BackupExchanger::backups\<close>, \<open>bundles\<close> and \<open>index\<close>; \<open>set( x )\<close> on the bit set is
  \<open>insert x\<close> on the set of the bits that are on.\<close>

datatype BackupExchanger = backups | bundles | index

text \<open>\<open>runtime.threads\<close> and \<open>runtime.cacheSize\<close> are read into and assigned from the
  \<open>size_t\<close> variable \<open>sizeValue\<close> and printed with \<open>%zu\<close>.\<close>

record RuntimeConfig =
  threads :: size_t
  cacheSize :: size_t
  exchange :: "BackupExchanger set"

record Config =
  storable :: ConfigInfo
  runtime :: RuntimeConfig

text \<open>What \<open>parseOption\<close> reads and writes: the \<open>Config\<close> object it is called on and the
  process-wide \<open>Compression::CompressionMethod::selectedCompression\<close>, a shared pointer that
  may be null. The type \<open>'cap\<close> is the type of compression methods; the registry
  \<open>findCompression\<close> and the method \<open>getName\<close> belong to compression.hh and are
  parameters of the model.\<close>

record 'cap state =
  config :: Config
  selectedCompression :: "'cap option"

datatype error = exInvalidThreadsValue string

text \<open>How a call ends: it returns a truth value or it throws. The state is the one the call
  leaves behind.\<close>

datatype 'cap outcome =
    Returned bool "'cap state"
  | Thrown error "'cap state"

text \<open>\<open>SET_STORABLE( bundle, compression_method, v )\<close>.\<close>

definition SET_STORABLE_bundle_compression_method :: "string \<Rightarrow> 'cap state \<Rightarrow> 'cap state" where
  "SET_STORABLE_bundle_compression_method v st =
     st\<lparr>config := (config st)\<lparr>storable :=
          (storable (config st))\<lparr>bundle_compression_method := v\<rparr>\<rparr>\<rparr>"

text \<open>The assignments to \<open>runtime.threads\<close>, \<open>runtime.cacheSize\<close> and
  \<open>runtime.exchange\<close>.\<close>

definition set_runtime_threads :: "size_t \<Rightarrow> 'cap state \<Rightarrow> 'cap state" where
  "set_runtime_threads v st =
     st\<lparr>config := (config st)\<lparr>runtime := (runtime (config st))\<lparr>threads := v\<rparr>\<rparr>\<rparr>"

definition set_runtime_cacheSize :: "size_t \<Rightarrow> 'cap state \<Rightarrow> 'cap state" where
  "set_runtime_cacheSize v st =
     st\<lparr>config := (config st)\<lparr>runtime := (runtime (config st))\<lparr>cacheSize := v\<rparr>\<rparr>\<rparr>"

definition runtime_exchange_set :: "BackupExchanger \<Rightarrow> 'cap state \<Rightarrow> 'cap state" where
  "runtime_exchange_set x st =
     st\<lparr>config := (config st)\<lparr>runtime :=
          (runtime (config st))\<lparr>exchange := insert x (exchange (runtime (config st)))\<rparr>\<rparr>\<rparr>"

section \<open>\<open>Config::parseOption\<close>\<close>

text \<open>\<open>case oBundle_compression_method\<close>.\<close>

definition parseOption_compression_method ::
  "(string \<Rightarrow> 'cap option) \<Rightarrow> ('cap \<Rightarrow> string) \<Rightarrow> bool \<Rightarrow> string \<Rightarrow> 'cap state \<Rightarrow> 'cap outcome"
where
  "parseOption_compression_method findCompression getName hasValue optionValue st =
     (if \<not> hasValue then Returned False st
      else if optionValue = ''lzma'' then
        (case findCompression ''lzma'' of
           None \<Rightarrow> Returned False st
         | Some lzma \<Rightarrow>
             Returned True
               (SET_STORABLE_bundle_compression_method (getName lzma)
                  (st\<lparr>selectedCompression := Some lzma\<rparr>)))
      else if optionValue = ''lzo1x_1'' \<or> optionValue = ''lzo'' then
        (case findCompression ''lzo1x_1'' of
           None \<Rightarrow> Returned False st
         | Some lzo \<Rightarrow>
             Returned True
               (SET_STORABLE_bundle_compression_method (getName lzo)
                  (st\<lparr>selectedCompression := Some lzo\<rparr>)))
      else Returned False st)"

text \<open>\<open>case oRuntime_threads\<close>. The three tests joined by \<open>||\<close> are evaluated from left to
  right; \<open>optionValue[ n ]\<close> is non-zero exactly when \<open>n\<close> is below the length.\<close>

definition parseOption_threads :: "bool \<Rightarrow> string \<Rightarrow> 'cap state \<Rightarrow> 'cap outcome" where
  "parseOption_threads hasValue optionValue st =
     (if \<not> hasValue then Returned False st
      else
        case sscanf_zu_n optionValue (threads (runtime (config st))) of
          (ret, sizeValue, n) \<Rightarrow>
            if ret \<noteq> 1 \<or> n < length optionValue \<or> sizeValue < 1
            then Thrown (exInvalidThreadsValue optionValue) st
            else Returned True (set_runtime_threads sizeValue st))"

text \<open>The chain of suffix tests of \<open>case oRuntime_cacheSize\<close>, on the suffix after
  \<open>tolower\<close>: the value of \<open>scale\<close>, or \<open>None\<close> in the last branch (invalid suffix).
  \<open>scale\<close> and \<open>scaleBase\<close> are \<open>unsigned int\<close>.\<close>

definition cacheSize_scale :: "string \<Rightarrow> u_int option" where
  "cacheSize_scale suffix =
     (if suffix = ''b'' then Some 1
      else if suffix = ''kib'' then (let scaleBase = 1024 in Some scaleBase)
      else if suffix = ''mib'' then (let scaleBase = 1024 in Some (scaleBase * scaleBase))
      else if suffix = ''gib'' then
        (let scaleBase = 1024 in Some (scaleBase * scaleBase * scaleBase))
      else if suffix = ''kb'' then (let scaleBase = 1000 in Some scaleBase)
      else if suffix = ''mb'' then (let scaleBase = 1000 in Some (scaleBase * scaleBase))
      else if suffix = ''gb'' then
        (let scaleBase = 1000 in Some (scaleBase * scaleBase * scaleBase))
      else None)"

text \<open>\<open>case oRuntime_cacheSize\<close>. In \<open>sizeValue * scale\<close> the \<open>unsigned int\<close> is converted
  to \<open>size_t\<close> and the product is taken in \<open>size_t\<close>.\<close>

definition parseOption_cacheSize :: "bool \<Rightarrow> string \<Rightarrow> 'cap state \<Rightarrow> 'cap outcome" where
  "parseOption_cacheSize hasValue optionValue st =
     (if \<not> hasValue then Returned False st
      else
        case sscanf_zu_s_n optionValue (cacheSize (runtime (config st))) of
          (ret, sizeValue, suffix, n) \<Rightarrow>
            if ret = 2 \<and> \<not> n < length optionValue then
              (case cacheSize_scale (map tolower suffix) of
                 None \<Rightarrow> Returned False st
               | Some scale \<Rightarrow>
                   Returned True (set_runtime_cacheSize (sizeValue * ucast scale) st))
            else Returned False st)"

text \<open>\<open>case oRuntime_exchange\<close>.\<close>

definition parseOption_exchange :: "bool \<Rightarrow> string \<Rightarrow> 'cap state \<Rightarrow> 'cap outcome" where
  "parseOption_exchange hasValue optionValue st =
     (if \<not> hasValue then Returned False st
      else if optionValue = ''backups'' then Returned True (runtime_exchange_set backups st)
      else if optionValue = ''bundles'' then Returned True (runtime_exchange_set bundles st)
      else if optionValue = ''index'' then Returned True (runtime_exchange_set index st)
      else Returned False st)"

text \<open>\<open>Config::parseOption\<close>: the token is split, the name (the whole token when no value
  was found) is looked up, and the opcode selects the case. The opcodes
  \<open>oChunk_max_size\<close> and \<open>oBundle_max_payload_size\<close> have no case of their own and reach
  \<open>default\<close>.\<close>

definition parseOption ::
  "(string \<Rightarrow> 'cap option) \<Rightarrow> ('cap \<Rightarrow> string) \<Rightarrow> string \<Rightarrow> OptionType \<Rightarrow> 'cap state \<Rightarrow> 'cap outcome"
where
  "parseOption findCompression getName option ty st =
     (case sscanf_name_value option of
        (ret, optionName, optionValue) \<Rightarrow>
          let hasValue = (ret = 2);
              opcode = parseToken (if hasValue then optionName else option) ty
          in (case opcode of
                oBundle_compression_method \<Rightarrow>
                  parseOption_compression_method findCompression getName hasValue optionValue st
              | oRuntime_threads \<Rightarrow> parseOption_threads hasValue optionValue st
              | oRuntime_cacheSize \<Rightarrow> parseOption_cacheSize hasValue optionValue st
              | oRuntime_exchange \<Rightarrow> parseOption_exchange hasValue optionValue st
              | oBadOption \<Rightarrow> Returned False st
              | _ \<Rightarrow> Returned False st))"

section \<open>\<open>Config::editInteractively\<close>\<close>

text \<open>
  The text format of the record (\<open>parse\<close>, \<open>toString\<close>: the protocol-buffer text format)
  and the editor (\<open>ZBackupBase::spawnEditor\<close>) are outside config.cc and are parameters:
  \<open>parse\<close> gives the parsed record or \<open>None\<close> when \<open>ParseFromString\<close> returns false;
  \<open>spawnEditor\<close> takes the text and the validation callback and gives its result with the
  text it leaves in \<open>newConfigData\<close>. \<open>CopyFrom\<close> makes the receiver equal to its argument.
  The type \<open>'c\<close> is the type of the persisted record.

  The effects of one call are kept as a trace: each call of the editor, with the text handed
  to it, and each message given to \<open>verbosePrintf\<close>.
\<close>

datatype event =
    SpawnEditor string
  | No_changes_made_to_config
  | Updating_configuration
  | Configuration_successfully_updated string

definition validate :: "(string \<Rightarrow> 'c option) \<Rightarrow> string \<Rightarrow> string \<Rightarrow> bool" where
  "validate parse configData newConfigData = (parse newConfigData \<noteq> None)"

definition editInteractively ::
  "(string \<Rightarrow> (string \<Rightarrow> string \<Rightarrow> bool) \<Rightarrow> bool \<times> string) \<Rightarrow> (string \<Rightarrow> 'c option) \<Rightarrow>
   ('c \<Rightarrow> string) \<Rightarrow> 'c \<Rightarrow> bool \<times> 'c \<times> event list"
where
  "editInteractively spawnEditor parse toString stored =
     (let configData = toString stored;
          (ok, newConfigData) = spawnEditor configData (validate parse);
          trace = [SpawnEditor configData]
      in if \<not> ok then (False, stored, trace)
         else case parse newConfigData of
                None \<Rightarrow> (False, stored, trace)
              | Some newConfig \<Rightarrow>
                  if toString stored = toString newConfig
                  then (False, stored, trace @ [No_changes_made_to_config])
                  else (True, newConfig,
                        trace @ [Updating_configuration,
                                 Configuration_successfully_updated (toString newConfig)]))"

section \<open>The unit table of the specification\<close>

text \<open>The suffixes and multipliers as the specification lists them ("\<open>B\<close>\<rightarrow>1,
  \<open>KiB\<close>\<rightarrow>1024, \<open>MiB\<close>\<rightarrow>1024^2, \<open>GiB\<close>\<rightarrow>1024^3, \<open>KB\<close>\<rightarrow>1000, \<open>MB\<close>\<rightarrow>1000^2,
  \<open>GB\<close>\<rightarrow>1000^3", matched without regard to letter case). This table follows the words of
  the specification; \<open>cacheSize_scale\<close> above is the one of the source.\<close>

definition spec_suffixes :: "(string \<times> nat) list" where
  "spec_suffixes =
     [(''B'', 1), (''KiB'', 1024), (''MiB'', 1024 ^ 2), (''GiB'', 1024 ^ 3),
      (''KB'', 1000), (''MB'', 1000 ^ 2), (''GB'', 1000 ^ 3)]"

definition spec_multiplier :: "string \<Rightarrow> nat option" where
  "spec_multiplier sfx =
     (case find (\<lambda>(u, m). strcasecmp_eq0 sfx u) spec_suffixes of
        None \<Rightarrow> None
      | Some (u, m) \<Rightarrow> Some m)"

text \<open>The number that \<open>%zu\<close> stores for a sign \<open>sg\<close> (empty, \<open>+\<close> or \<open>-\<close>) and a run of
  digits \<open>ds\<close>, as an integer: the number itself, negated under a minus sign, when the
  digits fit \<open>size_t\<close>, and \<open>2 ^ 64 - 1\<close> when they do not. The value of \<open>size_t\<close> is this
  integer modulo \<open>2 ^ 64\<close>.\<close>

abbreviation zu_number :: "string \<Rightarrow> string \<Rightarrow> int" where
  "zu_number sg ds \<equiv>
     (if decimal ds < 2 ^ 64
      then (if sg = ''-'' then - int (decimal ds) else int (decimal ds))
      else 2 ^ 64 - 1)"

section \<open>A concrete state\<close>

text \<open>A state on which the theorems below are exercised: compression methods are
  identified by their names, and nothing has been selected yet.\<close>

definition example_state :: "string state" where
  "example_state =
     \<lparr>config =
        \<lparr>storable = \<lparr>chunk_max_size = 65536, bundle_max_payload_size = 2097152,
                      bundle_compression_method = ''lzma''\<rparr>,
         runtime = \<lparr>threads = 2, cacheSize = 41943040, exchange = {}\<rparr>\<rparr>,
      selectedCompression = None\<rparr>"

section \<open>Properties of the registry\<close>

lemma keywords_names_distinct:
  "distinct (map (\<lambda>k. map tolower (name k)) keywords_table)"
  by (simp add: keywords_table_def tolower_def)

lemma parseToken_loop_hit:
  "distinct (map (\<lambda>k. map tolower (name k)) ks) \<Longrightarrow> k \<in> set ks \<Longrightarrow>
   strcasecmp_eq0 option (name k) \<Longrightarrow>
   parseToken_loop ks option ty = (if type k = ty then opcode k else oBadOption)"
proof (induction ks)
  case Nil
  then show ?case by simp
next
  case (Cons a ks)
  show ?case
  proof (cases "k = a")
    case True
    with Cons.prems show ?thesis by simp
  next
    case False
    with Cons.prems have k: "k \<in> set ks" by simp
    from Cons.prems(1) k have "map tolower (name a) \<noteq> map tolower (name k)"
      by force
    with Cons.prems(3) have "\<not> strcasecmp_eq0 option (name a)"
      by (simp add: strcasecmp_eq0_def)
    with Cons k show ?thesis by simp
  qed
qed

lemma parseToken_row:
  "k \<in> set keywords_table \<Longrightarrow> strcasecmp_eq0 nm (name k) \<Longrightarrow>
   parseToken nm ty = (if type k = ty then opcode k else oBadOption)"
  unfolding parseToken_def by (rule parseToken_loop_hit [OF keywords_names_distinct])

lemma parseToken_loop_found:
  "parseToken_loop ks option ty \<noteq> oBadOption \<Longrightarrow>
   \<exists>k\<in>set ks. strcasecmp_eq0 option (name k) \<and> type k = ty \<and>
     opcode k = parseToken_loop ks option ty"
  by (induction ks) (auto split: if_splits)

lemma parseToken_loop_case:
  "strcasecmp_eq0 a b \<Longrightarrow> parseToken_loop ks a ty = parseToken_loop ks b ty"
  by (induction ks) (simp_all add: strcasecmp_eq0_def)

lemma tolower_eq_iff: "tolower c = CHR ''='' \<longleftrightarrow> c = CHR ''=''"
  by (auto simp: tolower_def split: option.splits if_splits)

lemma eq_in_lower: "CHR ''='' \<in> set (map tolower s) \<longleftrightarrow> CHR ''='' \<in> set s"
proof (induction s)
  case Nil
  show ?case by simp
next
  case (Cons a s)
  have "(CHR ''='' = tolower a) = (CHR ''='' = a)"
    using tolower_eq_iff [of a] by auto
  with Cons show ?case by simp
qed

lemma parseToken_loop_miss:
  "\<forall>k\<in>set ks. \<not> strcasecmp_eq0 option (name k) \<Longrightarrow> parseToken_loop ks option ty = oBadOption"
  by (induction ks) simp_all

lemma keywords_names_no_eq: "\<forall>k\<in>set keywords_table. CHR ''='' \<notin> set (name k)"
  by (simp add: keywords_table_def)

lemma parseToken_with_eq:
  assumes "CHR ''='' \<in> set s"
  shows "parseToken s ty = oBadOption"
proof -
  have "\<not> strcasecmp_eq0 s (name k)" if "k \<in> set keywords_table" for k
  proof
    assume "strcasecmp_eq0 s (name k)"
    then have "set (map tolower s) = set (map tolower (name k))"
      by (simp add: strcasecmp_eq0_def)
    with assms eq_in_lower [of s] eq_in_lower [of "name k"]
    have "CHR ''='' \<in> set (name k)" by blast
    with that keywords_names_no_eq show False by blast
  qed
  then show ?thesis
    unfolding parseToken_def by (intro parseToken_loop_miss) blast
qed

text \<open>
  Claim C4, as amended. For every opcode and category the number of rows of the table with
  that opcode and category is: two for \<open>oBundle_compression_method\<close> under \<open>Storable\<close>,
  the option \<open>bundle.compression_method\<close> and its shortcut \<open>compression\<close>; one for
  \<open>oChunk_max_size\<close> and \<open>oBundle_max_payload_size\<close> under \<open>Storable\<close> and for
  \<open>oRuntime_threads\<close>, \<open>oRuntime_cacheSize\<close> and \<open>oRuntime_exchange\<close> under \<open>Runtime\<close>;
  none in every other case (an opcode under a category it does not apply to, and
  \<open>oBadOption\<close>, which only the terminator carries).
\<close>

theorem opcode_shared_only_by_shortcut:
  "length (filter (\<lambda>k. opcode k = opc \<and> type k = ty) keywords_table) =
     (if opc = oBundle_compression_method \<and> ty = Storable then 2
      else if opc \<in> {oChunk_max_size, oBundle_max_payload_size} \<and> ty = Storable then 1
      else if opc \<in> {oRuntime_threads, oRuntime_cacheSize, oRuntime_exchange} \<and> ty = Runtime
      then 1
      else 0)
   \<and> map name (filter (\<lambda>k. opcode k = oBundle_compression_method \<and> type k = Storable)
        keywords_table) = [''bundle.compression_method'', ''compression'']"
  by (cases opc; cases ty) (simp_all add: keywords_table_def)

theorem opcode_shared_only_by_shortcut_witness:
  "length (filter (\<lambda>k. opcode k = oBundle_compression_method \<and> type k = Storable)
      keywords_table) = 2
   \<and> length (filter (\<lambda>k. opcode k = oRuntime_threads \<and> type k = Runtime) keywords_table) = 1
   \<and> length (filter (\<lambda>k. opcode k = oRuntime_threads \<and> type k = Storable) keywords_table) = 0
   \<and> length (filter (\<lambda>k. opcode k = oBadOption \<and> type k = None_type) keywords_table) = 0"
  using opcode_shared_only_by_shortcut [of oBundle_compression_method Storable]
    opcode_shared_only_by_shortcut [of oRuntime_threads Runtime]
    opcode_shared_only_by_shortcut [of oRuntime_threads Storable]
    opcode_shared_only_by_shortcut [of oBadOption None_type]
  by simp

text \<open>
  Claim C4, as stated, fails: the rows \<open>bundle.compression_method\<close> and \<open>compression\<close> are
  two different rows of the category \<open>Storable\<close> with the same opcode.
\<close>

theorem shared_opcode_counterexample:
  "\<lparr>name = ''bundle.compression_method'', opcode = oBundle_compression_method, type = Storable\<rparr>
     \<in> set keywords_table
   \<and> \<lparr>name = ''compression'', opcode = oBundle_compression_method, type = Storable\<rparr>
     \<in> set keywords_table
   \<and> \<lparr>name = ''bundle.compression_method'', opcode = oBundle_compression_method, type = Storable\<rparr>
     \<noteq> \<lparr>name = ''compression'', opcode = oBundle_compression_method, type = Storable\<rparr>"
  by (simp add: keywords_table_def)

text \<open>
  Claim C5. \<open>parseToken\<close> is a case-insensitive lookup filtered by category: when the name
  matches a row, the result is the opcode of that row if the row is of the requested type and
  \<open>oBadOption\<close> if it is of another type; a result other than \<open>oBadOption\<close> is the opcode of
  a row of the requested type whose name matches; and two names that differ in letter case
  only give the same result.
\<close>

theorem lookup_case_insensitive:
  "(\<forall>k\<in>set keywords_table. strcasecmp_eq0 option (name k) \<longrightarrow>
        parseToken option ty = (if type k = ty then opcode k else oBadOption))
   \<and> (parseToken option ty \<noteq> oBadOption \<longrightarrow>
        (\<exists>k\<in>set keywords_table. strcasecmp_eq0 option (name k) \<and> type k = ty \<and>
           opcode k = parseToken option ty))
   \<and> (strcasecmp_eq0 option option' \<longrightarrow> parseToken option ty = parseToken option' ty)"
  unfolding parseToken_def
  using parseToken_loop_hit [OF keywords_names_distinct]
    parseToken_loop_found parseToken_loop_case
  by blast

theorem lookup_case_insensitive_witness:
  "parseToken ''THREADS'' Runtime = oRuntime_threads
   \<and> parseToken ''Threads'' Storable = oBadOption
   \<and> parseToken ''cOmPrEsSiOn'' Storable = parseToken ''compression'' Storable"
proof -
  have k: "\<lparr>name = ''threads'', opcode = oRuntime_threads, type = Runtime\<rparr> \<in> set keywords_table"
    by (simp add: keywords_table_def)
  have 1: "strcasecmp_eq0 ''THREADS'' ''threads''"
    by (simp add: strcasecmp_eq0_def tolower_def)
  have 2: "strcasecmp_eq0 ''Threads'' ''threads''"
    by (simp add: strcasecmp_eq0_def tolower_def)
  have 3: "strcasecmp_eq0 ''cOmPrEsSiOn'' ''compression''"
    by (simp add: strcasecmp_eq0_def tolower_def)
  from lookup_case_insensitive [of "''THREADS''" Runtime] k 1
  have a: "parseToken ''THREADS'' Runtime = oRuntime_threads" by fastforce
  from lookup_case_insensitive [of "''Threads''" Storable] k 2
  have b: "parseToken ''Threads'' Storable = oBadOption" by fastforce
  from lookup_case_insensitive [of "''cOmPrEsSiOn''" Storable "''compression''"] 3
  have c: "parseToken ''cOmPrEsSiOn'' Storable = parseToken ''compression'' Storable" by blast
  from a b c show ?thesis by blast
qed

section \<open>Splitting the token\<close>

lemma sscanf_name_value_2D:
  "sscanf_name_value s = (2, nm, v) \<Longrightarrow>
   nm \<noteq> [] \<and> CHR ''='' \<notin> set nm \<and> v \<noteq> [] \<and> (\<forall>c\<in>set v. \<not> isspace c)"
  by (auto simp: sscanf_name_value_def Let_def EOF_def split: if_splits list.splits
      dest: set_takeWhileD)

lemma sscanf_name_value_no_value:
  "CHR ''='' \<notin> set nm \<Longrightarrow> sscanf_name_value (nm @ ''='') = (if nm = [] then 0 else 1, nm, [])"
  by (simp add: sscanf_name_value_def Let_def takeWhile_append dropWhile_append3 dropWhile_append
      takeWhile_eq_all_conv[THEN iffD2] )

lemma sscanf_name_value_split:
  "nm \<noteq> [] \<Longrightarrow> CHR ''='' \<notin> set nm \<Longrightarrow> v \<noteq> [] \<Longrightarrow> \<forall>c\<in>set v. \<not> isspace c \<Longrightarrow>
   sscanf_name_value (nm @ ''='' @ v) = (2, nm, v)"
  apply (cases v)
  by (simp_all add: sscanf_name_value_def Let_def takeWhile_append dropWhile_append3 dropWhile_append
      takeWhile_eq_all_conv[THEN iffD2] )

lemmas scan_defs = sscanf_name_value_def scan_zu_def sscanf_zu_n_def sscanf_zu_s_n_def
  decimal_def isspace_def isdigit_def EOF_def

lemmas parseOption_defs = parseOption_def parseToken_def keywords_table_def strcasecmp_eq0_def
  tolower_def parseOption_threads_def parseOption_cacheSize_def parseOption_exchange_def
  parseOption_compression_method_def cacheSize_scale_def

text \<open>
  Claim C9. A token that ends in \<open>=\<close> with nothing after it (the name has no \<open>=\<close>) has no
  value for the splitting step, which assigns fewer than two items; the whole token, with its
  \<open>=\<close>, is looked up and matches no row; the call returns false and the state is the one
  before the call. No exception is thrown, also for \<open>threads=\<close>.
\<close>

theorem empty_value_is_unknown_option:
  assumes "CHR ''='' \<notin> set nm"
  shows "fst (sscanf_name_value (nm @ ''='')) \<noteq> 2
       \<and> parseToken (nm @ ''='') ty = oBadOption
       \<and> parseOption findCompression getName (nm @ ''='') ty st = Returned False st"
proof -
  have 1: "fst (sscanf_name_value (nm @ ''='')) \<noteq> 2"
    using assms by (simp add: sscanf_name_value_no_value)
  have 2: "parseToken (nm @ ''='') ty = oBadOption"
    by (rule parseToken_with_eq) simp
  have 3: "parseToken ''='' ty = oBadOption"
    by (rule parseToken_with_eq) simp
  from assms 2 3 have "parseOption findCompression getName (nm @ ''='') ty st = Returned False st"
    by (simp add: parseOption_def sscanf_name_value_no_value)
  with 1 2 show ?thesis by blast
qed

theorem empty_value_is_unknown_option_witness:
  "CHR ''='' \<notin> set ''threads''
   \<and> fst (sscanf_name_value ''threads='') \<noteq> 2
   \<and> parseToken ''threads='' Runtime = oBadOption
   \<and> parseOption (\<lambda>n. if n = ''lzma'' then Some n else None) (\<lambda>c. c) ''threads='' Runtime
         example_state = Returned False example_state"
proof -
  have h: "CHR ''='' \<notin> set ''threads''" by simp
  let ?fc = "\<lambda>n::string. if n = ''lzma'' then Some n else None"
  let ?gn = "\<lambda>c::string. c"
  from empty_value_is_unknown_option [OF h, of Runtime ?fc ?gn example_state] h
  show ?thesis by simp
qed

section \<open>Scanning a number\<close>

lemma size_max: "(18446744073709551615 :: 64 word) = - 1"
proof -
  have "(- 1 :: 64 word) = 18446744073709551615" by simp
  then show ?thesis by (rule sym)
qed

lemma word_of_int_zu_number:
  "(word_of_int (zu_number sg ds) :: size_t) =
     (if decimal ds < 2 ^ 64
      then (if sg = ''-'' then - word_of_nat (decimal ds) else word_of_nat (decimal ds))
      else SIZE_MAX)"
  by (simp add: SIZE_MAX_def size_max)

lemma dropWhile_none: "\<forall>c\<in>set xs. \<not> P c \<Longrightarrow> dropWhile P xs = xs"
  by (cases xs) auto

lemma isdigit_not_isspace: "isdigit c \<Longrightarrow> \<not> isspace c"
  by (auto simp: isdigit_def isspace_def)

lemma isdigit_not_sign: "isdigit c \<Longrightarrow> c \<noteq> CHR ''-'' \<and> c \<noteq> CHR ''+''"
  by (auto simp: isdigit_def)

lemma takeWhile_digits:
  "\<forall>c\<in>set ds. isdigit c \<Longrightarrow> rest = [] \<or> \<not> isdigit (hd rest) \<Longrightarrow>
   takeWhile isdigit (ds @ rest) = ds \<and> dropWhile isdigit (ds @ rest) = rest"
  by (cases rest) simp_all

lemma scan_zu_unsigned:
  assumes "ds \<noteq> []" "\<forall>c\<in>set ds. isdigit c" "rest = [] \<or> \<not> isdigit (hd rest)"
  shows "scan_zu (ds @ rest) = Zu_value (word_of_int (zu_number [] ds)) rest"
proof -
  from assms(1) obtain d ds' where ds: "ds = d # ds'" by (cases ds) auto
  with assms(2) have d: "isdigit d" by simp
  have tw: "takeWhile isdigit (ds @ rest) = ds" "dropWhile isdigit (ds @ rest) = rest"
    using takeWhile_digits [OF assms(2,3)] by simp_all
  have "dropWhile isspace (ds @ rest) = d # (ds' @ rest)"
    using d isdigit_not_isspace ds by simp
  then show ?thesis
    unfolding word_of_int_zu_number
    using tw assms(1) isdigit_not_sign [OF d] ds
    by (simp add: scan_zu_def)
qed

lemma scan_zu_plus:
  assumes "ds \<noteq> []" "\<forall>c\<in>set ds. isdigit c" "rest = [] \<or> \<not> isdigit (hd rest)"
  shows "scan_zu (''+'' @ ds @ rest) = Zu_value (word_of_int (zu_number ''+'' ds)) rest"
  unfolding word_of_int_zu_number
  using takeWhile_digits [OF assms(2,3)] assms(1)
  by (simp add: scan_zu_def isspace_def)

lemma scan_zu_minus:
  assumes "ds \<noteq> []" "\<forall>c\<in>set ds. isdigit c" "rest = [] \<or> \<not> isdigit (hd rest)"
  shows "scan_zu (''-'' @ ds @ rest) = Zu_value (word_of_int (zu_number ''-'' ds)) rest"
  unfolding word_of_int_zu_number
  using takeWhile_digits [OF assms(2,3)] assms(1)
  by (simp add: scan_zu_def isspace_def)

lemma scan_zu_signed:
  assumes "sg \<in> {[], ''+'', ''-''}" "ds \<noteq> []" "\<forall>c\<in>set ds. isdigit c"
    "rest = [] \<or> \<not> isdigit (hd rest)"
  shows "scan_zu (sg @ ds @ rest) = Zu_value (word_of_int (zu_number sg ds)) rest"
  using assms(1) scan_zu_unsigned [OF assms(2-4)] scan_zu_plus [OF assms(2-4)]
    scan_zu_minus [OF assms(2-4)]
  by auto

section \<open>The thread count\<close>

text \<open>The thread count on its values: a run of digits with an optional sign is accepted
  unless the number is 0, also with a minus sign, where the value is negated in \<open>size_t\<close>,
  and also when the digits do not fit \<open>size_t\<close>, where the value is \<open>SIZE_MAX\<close>; a value
  that begins with a byte that is neither a digit nor a sign, and a number followed by
  further bytes, throw.\<close>

lemma parseToken_threads:
  "strcasecmp_eq0 nm ''threads'' \<Longrightarrow> parseToken nm Runtime = oRuntime_threads"
  using parseToken_row [of "\<lparr>name = ''threads'', opcode = oRuntime_threads, type = Runtime\<rparr>"
      nm Runtime]
  by (simp add: keywords_table_def)

lemma sscanf_zu_n_value:
  assumes "sg \<in> {[], ''+'', ''-''}" "ds \<noteq> []" "\<forall>c\<in>set ds. isdigit c"
  shows "sscanf_zu_n (sg @ ds) old = (1, word_of_int (zu_number sg ds), length (sg @ ds))"
  using scan_zu_signed [OF assms(1-3), of "[]"]
  by (simp add: sscanf_zu_n_def)

lemma zu_number_less_1:
  "(word_of_int (zu_number sg ds) :: size_t) < 1 \<longleftrightarrow> decimal ds = 0"
proof (cases "decimal ds < 2 ^ 64")
  case True
  then have "(word_of_nat (decimal ds) :: size_t) = 0 \<longleftrightarrow> decimal ds = 0"
    by (simp add: word_of_nat_eq_0_iff dvd_eq_mod_eq_0)
  with True show ?thesis
    unfolding word_of_int_zu_number by (simp add: word_less_1)
next
  case False
  then show ?thesis
    unfolding word_of_int_zu_number by (simp add: word_less_1 SIZE_MAX_def)
qed

lemma threads_value_signed:
  assumes "sscanf_name_value option = (2, nm, sg @ ds)"
    and "strcasecmp_eq0 nm ''threads''"
    and "sg \<in> {[], ''+'', ''-''}" "ds \<noteq> []" "\<forall>c\<in>set ds. isdigit c"
  shows "parseOption findCompression getName option Runtime st =
    (if decimal ds = 0 then Thrown (exInvalidThreadsValue (sg @ ds)) st
     else Returned True (set_runtime_threads (word_of_int (zu_number sg ds)) st))"
proof -
  define x :: size_t where "x = word_of_int (zu_number sg ds)"
  have a: "sscanf_zu_n (sg @ ds) old = (1, x, length (sg @ ds))" for old
    unfolding x_def by (rule sscanf_zu_n_value [OF assms(3-5)])
  have b: "x < 1 \<longleftrightarrow> decimal ds = 0"
    unfolding x_def by (rule zu_number_less_1)
  have "parseOption findCompression getName option Runtime st =
    (if decimal ds = 0 then Thrown (exInvalidThreadsValue (sg @ ds)) st
     else Returned True (set_runtime_threads x st))"
    using assms(1,2) a b
    by (simp add: parseOption_def parseToken_threads parseOption_threads_def)
  then show ?thesis unfolding x_def .
qed

lemma threads_value_non_numeric:
  assumes "sscanf_name_value option = (2, nm, c # cs)"
    and "strcasecmp_eq0 nm ''threads''"
    and "\<not> isdigit c" "c \<noteq> CHR ''-''" "c \<noteq> CHR ''+''"
  shows "parseOption findCompression getName option Runtime st =
    Thrown (exInvalidThreadsValue (c # cs)) st"
proof -
  from sscanf_name_value_2D [OF assms(1)] have "\<not> isspace c" by simp
  with assms(3-5) have "scan_zu (c # cs) = Zu_matching_failure"
    by (simp add: scan_zu_def)
  with assms(1,2) show ?thesis
    by (simp add: parseOption_def parseToken_threads parseOption_threads_def sscanf_zu_n_def)
qed

lemma threads_value_trailing:
  assumes "sscanf_name_value option = (2, nm, sg @ ds @ rest)"
    and "strcasecmp_eq0 nm ''threads''"
    and "sg \<in> {[], ''+'', ''-''}" "ds \<noteq> []" "\<forall>c\<in>set ds. isdigit c"
    and "rest \<noteq> []" "\<not> isdigit (hd rest)"
  shows "parseOption findCompression getName option Runtime st =
    Thrown (exInvalidThreadsValue (sg @ ds @ rest)) st"
proof -
  from sscanf_name_value_2D [OF assms(1)] have "\<forall>c\<in>set rest. \<not> isspace c" by simp
  then have "dropWhile isspace rest = rest" by (rule dropWhile_none)
  moreover have "scan_zu (sg @ ds @ rest) = Zu_value (word_of_int (zu_number sg ds)) rest"
    using assms(3-5,7) by (intro scan_zu_signed) simp_all
  ultimately show ?thesis
    using assms(1,2,6)
    by (simp add: parseOption_def parseToken_threads parseOption_threads_def sscanf_zu_n_def)
qed

text \<open>
  Claim C1, at the value \<open>-1\<close>. The conversion \<open>%zu\<close> takes the sign and the digit and
  negates in \<open>size_t\<close>; the three tests of the source pass (one item assigned, nothing left
  over, \<open>sizeValue\<close> is not below 1), so no exception is thrown: the call returns true and
  \<open>runtime.threads\<close> becomes 18446744073709551615.
\<close>

theorem threads_minus_one_applied:
  "parseOption findCompression getName ''threads=-1'' Runtime st =
     Returned True (set_runtime_threads 18446744073709551615 st)"
  by (simp add: parseOption_defs scan_defs size_max)

section \<open>The exchange set\<close>




section \<open>The compression method\<close>

lemma parseToken_compression:
  "strcasecmp_eq0 nm ''compression'' \<or> strcasecmp_eq0 nm ''bundle.compression_method'' \<Longrightarrow>
   parseToken nm Storable = oBundle_compression_method"
  using parseToken_row [of "\<lparr>name = ''compression'', opcode = oBundle_compression_method,
        type = Storable\<rparr>" nm Storable]
    parseToken_row [of "\<lparr>name = ''bundle.compression_method'',
        opcode = oBundle_compression_method, type = Storable\<rparr>" nm Storable]
  by (auto simp: keywords_table_def)

text \<open>
  Claim C6. When the splitting step finds the name of the compression option
  (\<open>compression\<close> or \<open>bundle.compression_method\<close>, in any letter case) and a value, in the
  category \<open>Storable\<close>: the value \<open>lzma\<close> asks the registry for \<open>lzma\<close>, the values
  \<open>lzo1x_1\<close> and \<open>lzo\<close> both ask for \<open>lzo1x_1\<close>, no other value is accepted. When the
  registry has no such method, or the value is another one, the call returns false and the
  state is unchanged; otherwise the method found becomes the selected compression and its
  name, as \<open>getName\<close> reports it, is written to the compression field of the persisted
  record, and the call returns true.
\<close>

theorem compression_method_selection:
  assumes "sscanf_name_value option = (2, nm, v)"
    and "strcasecmp_eq0 nm ''compression'' \<or> strcasecmp_eq0 nm ''bundle.compression_method''"
  shows "parseOption findCompression getName option Storable st =
    (case (if v = ''lzma'' then findCompression ''lzma''
           else if v = ''lzo1x_1'' \<or> v = ''lzo'' then findCompression ''lzo1x_1''
           else None) of
       None \<Rightarrow> Returned False st
     | Some c \<Rightarrow>
         Returned True
           (st\<lparr>config := (config st)\<lparr>storable :=
                  (storable (config st))\<lparr>bundle_compression_method := getName c\<rparr>\<rparr>,
               selectedCompression := Some c\<rparr>))"
  using assms
  by (simp add: parseOption_def parseToken_compression parseOption_compression_method_def
      SET_STORABLE_bundle_compression_method_def split: option.splits)

theorem compression_method_selection_witness:
  "parseOption (\<lambda>n. if n = ''lzma'' then Some ''LZMA method'' else None) (\<lambda>c. ''lzma'')
     ''Compression=lzma'' Storable example_state =
     Returned True
       (example_state\<lparr>config := (config example_state)\<lparr>storable :=
            (storable (config example_state))\<lparr>bundle_compression_method := ''lzma''\<rparr>\<rparr>,
          selectedCompression := Some ''LZMA method''\<rparr>)
   \<and> parseOption (\<lambda>n. if n = ''lzma'' then Some ''LZMA method'' else None) (\<lambda>c. ''lzma'')
       ''compression=lzo'' Storable example_state = Returned False example_state
   \<and> parseOption (\<lambda>n. if n = ''lzma'' then Some ''LZMA method'' else None) (\<lambda>c. ''lzma'')
       ''compression=bogus'' Storable example_state = Returned False example_state"
proof -
  have n1: "strcasecmp_eq0 ''Compression'' ''compression'' \<or>
      strcasecmp_eq0 ''Compression'' ''bundle.compression_method''"
    by (simp add: strcasecmp_eq0_def tolower_def)
  have n2: "strcasecmp_eq0 ''compression'' ''compression'' \<or>
      strcasecmp_eq0 ''compression'' ''bundle.compression_method''"
    by (simp add: strcasecmp_eq0_def)
  have 1: "sscanf_name_value ''Compression=lzma'' = (2, ''Compression'', ''lzma'')"
    by (simp add: scan_defs)
  have 2: "sscanf_name_value ''compression=lzo'' = (2, ''compression'', ''lzo'')"
    by (simp add: scan_defs)
  have 3: "sscanf_name_value ''compression=bogus'' = (2, ''compression'', ''bogus'')"
    by (simp add: scan_defs)
  let ?fc = "\<lambda>n::string. if n = ''lzma'' then Some ''LZMA method'' else None"
  let ?gn = "\<lambda>c::string. ''lzma''"
  from compression_method_selection [OF 1 n1, of ?fc ?gn example_state]
    compression_method_selection [OF 2 n2, of ?fc ?gn example_state]
    compression_method_selection [OF 3 n2, of ?fc ?gn example_state]
  show ?thesis by simp
qed

section \<open>The cache size\<close>

lemma cacheSize_scale_length: "cacheSize_scale s = Some scale \<Longrightarrow> length s \<le> 3"
  by (auto simp: cacheSize_scale_def split: if_splits)

lemma sscanf_zu_s_n_value:
  assumes "sg \<in> {[], ''+'', ''-''}" "ds \<noteq> []" "\<forall>c\<in>set ds. isdigit c"
    "sfx = [] \<or> \<not> isdigit (hd sfx)" "\<forall>c\<in>set sfx. \<not> isspace c"
  shows "sscanf_zu_s_n (sg @ ds @ sfx) old =
    (if sfx = [] then (1, word_of_int (zu_number sg ds), [], 0)
     else (2, word_of_int (zu_number sg ds), take 15 sfx,
           length (sg @ ds @ sfx) - (length sfx - 15)))"
proof -
  have a: "dropWhile isspace sfx = sfx" using assms(5) by (rule dropWhile_none)
  have b: "takeWhile (\<lambda>c. \<not> isspace c) sfx = sfx" using assms(5) by simp
  have c: "dropWhile isspace (drop k sfx) = drop k sfx" for k
    using assms(5) by (intro dropWhile_none) (meson in_set_dropD)
  show ?thesis
  proof (cases "sfx = []")
    case True
    then show ?thesis
      unfolding sscanf_zu_s_n_def scan_zu_signed [OF assms(1-4)]
      by simp
  next
    case False
    then have d: "\<not> Ball (set sfx) isspace"
      using assms(5) by (cases sfx) auto
    from False show ?thesis
      unfolding sscanf_zu_s_n_def scan_zu_signed [OF assms(1-4)]
      by (simp add: a b c d Let_def min_def)
  qed
qed

lemma parseToken_cacheSize:
  "strcasecmp_eq0 nm ''cache-size'' \<Longrightarrow> parseToken nm Runtime = oRuntime_cacheSize"
  using parseToken_row [of "\<lparr>name = ''cache-size'', opcode = oRuntime_cacheSize, type = Runtime\<rparr>"
      nm Runtime]
  by (simp add: keywords_table_def)

lemma cacheSize_core:
  assumes "sscanf_name_value option = (2, nm, sg @ ds @ sfx)"
    and "strcasecmp_eq0 nm ''cache-size''"
    and "sg \<in> {[], ''+'', ''-''}" "ds \<noteq> []" "\<forall>c\<in>set ds. isdigit c"
    and "sfx = [] \<or> \<not> isdigit (hd sfx)"
  shows "parseOption findCompression getName option Runtime st =
    (case cacheSize_scale (map tolower sfx) of
       None \<Rightarrow> Returned False st
     | Some scale \<Rightarrow>
         Returned True
           (set_runtime_cacheSize (word_of_int (zu_number sg ds) * ucast scale) st))"
proof -
  from sscanf_name_value_2D [OF assms(1)] have ns: "\<forall>c\<in>set sfx. \<not> isspace c" by simp
  note sc = sscanf_zu_s_n_value [OF assms(3-6) ns]
  show ?thesis
  proof (cases "sfx = []")
    case True
    then show ?thesis
      using assms(1,2) sc
      by (simp add: parseOption_def parseToken_cacheSize parseOption_cacheSize_def
          cacheSize_scale_def)
  next
    case False
    show ?thesis
    proof (cases "length sfx \<le> 15")
      case True
      with False show ?thesis
        using assms(1,2) sc
        by (simp add: parseOption_def parseToken_cacheSize parseOption_cacheSize_def)
    next
      case long: False
      then have "cacheSize_scale (map tolower sfx) = None"
        using cacheSize_scale_length [of "map tolower sfx"]
        by (cases "cacheSize_scale (map tolower sfx)") auto
      with False long show ?thesis
        using assms(1,2) sc
        by (simp add: parseOption_def parseToken_cacheSize parseOption_cacheSize_def)
    qed
  qed
qed

lemma scale_refines_spec:
  "cacheSize_scale (map tolower sfx) = map_option word_of_nat (spec_multiplier sfx)"
  by (simp add: cacheSize_scale_def spec_multiplier_def spec_suffixes_def strcasecmp_eq0_def
      tolower_def)

lemma spec_multiplier_bound: "spec_multiplier sfx = Some m \<Longrightarrow> m < 2 ^ 32"
  by (auto simp: spec_multiplier_def spec_suffixes_def split: if_splits)

lemma product_in_size_t:
  assumes "m < 2 ^ 32"
  shows "(word_of_int z :: size_t) * ucast (word_of_nat m :: u_int) = word_of_int (z * int m)"
proof -
  have "(ucast (word_of_nat m :: u_int) :: size_t) = word_of_nat (m mod 2 ^ 32)"
    by (simp add: unsigned_of_nat take_bit_eq_mod)
  also have "\<dots> = word_of_int (int m)" using assms by simp
  finally show ?thesis by (simp only: wi_hom_mult)
qed

text \<open>
  Claim C2, as amended. When the splitting step finds the name \<open>cache-size\<close> (in any letter
  case) and a value made of an optional sign, a run of digits and a rest \<open>sfx\<close> that does
  not begin with a digit, in the category \<open>Runtime\<close>: if \<open>sfx\<close> is a suffix of the table of
  the specification, in any letter case, the call returns true and assigns to
  \<open>runtime.cacheSize\<close>, and to nothing else, the product of the number that \<open>%zu\<close> stores
  and the multiplier of the suffix, reduced modulo \<open>2 ^ 64\<close>; if \<open>sfx\<close> is empty (a bare
  integer), or is not in the table (another suffix, or a suffix of the table with further
  characters after it), the call returns false and the state is unchanged.
\<close>

theorem cacheSize_parsing:
  assumes "sscanf_name_value option = (2, nm, sg @ ds @ sfx)"
    and "strcasecmp_eq0 nm ''cache-size''"
    and "sg \<in> {[], ''+'', ''-''}" "ds \<noteq> []" "\<forall>c\<in>set ds. isdigit c"
    and "sfx = [] \<or> \<not> isdigit (hd sfx)"
  shows "parseOption findCompression getName option Runtime st =
    (case spec_multiplier sfx of
       None \<Rightarrow> Returned False st
     | Some m \<Rightarrow>
         Returned True
           (st\<lparr>config := (config st)\<lparr>runtime :=
               (runtime (config st))\<lparr>cacheSize :=
                  word_of_int (zu_number sg ds * int m)\<rparr>\<rparr>\<rparr>))"
proof (cases "spec_multiplier sfx")
  case None
  with cacheSize_core [OF assms, of findCompression getName st] show ?thesis
    by (simp add: scale_refines_spec)
next
  case (Some m)
  with cacheSize_core [OF assms, of findCompression getName st] show ?thesis
    by (simp add: scale_refines_spec product_in_size_t [OF spec_multiplier_bound [OF Some]]
        set_runtime_cacheSize_def)
qed

theorem cacheSize_parsing_witness:
  "parseOption (\<lambda>n. if n = ''lzma'' then Some n else None) (\<lambda>c. c) ''cache-size=10MiB'' Runtime example_state =
     Returned True
       (example_state\<lparr>config := (config example_state)\<lparr>runtime :=
          (runtime (config example_state))\<lparr>cacheSize := 10485760\<rparr>\<rparr>\<rparr>)
   \<and> parseOption (\<lambda>n. if n = ''lzma'' then Some n else None) (\<lambda>c. c) ''cache-size=10MB'' Runtime example_state =
     Returned True
       (example_state\<lparr>config := (config example_state)\<lparr>runtime :=
          (runtime (config example_state))\<lparr>cacheSize := 10000000\<rparr>\<rparr>\<rparr>)
   \<and> parseOption (\<lambda>n. if n = ''lzma'' then Some n else None) (\<lambda>c. c) ''cache-size=0B'' Runtime example_state =
     Returned True
       (example_state\<lparr>config := (config example_state)\<lparr>runtime :=
          (runtime (config example_state))\<lparr>cacheSize := 0\<rparr>\<rparr>\<rparr>)
   \<and> parseOption (\<lambda>n. if n = ''lzma'' then Some n else None) (\<lambda>c. c) ''cache-size=-1KiB'' Runtime example_state =
     Returned True
       (example_state\<lparr>config := (config example_state)\<lparr>runtime :=
          (runtime (config example_state))\<lparr>cacheSize := 18446744073709550592\<rparr>\<rparr>\<rparr>)
   \<and> cacheSize (runtime (config example_state)) = 41943040
   \<and> parseOption (\<lambda>n. if n = ''lzma'' then Some n else None) (\<lambda>c. c) ''cache-size=10'' Runtime example_state = Returned False example_state
   \<and> parseOption (\<lambda>n. if n = ''lzma'' then Some n else None) (\<lambda>c. c) ''cache-size=10xyz'' Runtime example_state = Returned False example_state
   \<and> parseOption (\<lambda>n. if n = ''lzma'' then Some n else None) (\<lambda>c. c) ''cache-size=10MiBxyz'' Runtime example_state =
     Returned False example_state"
proof -
  have n: "strcasecmp_eq0 ''cache-size'' ''cache-size''" by (simp add: strcasecmp_eq0_def)
  have g: "([]::string) \<in> {[], ''+'', ''-''}" "''-'' \<in> {[], ''+'', ''-''}" by simp_all
  have d10: "''10'' \<noteq> []" "\<forall>c\<in>set ''10''. isdigit c"
    and d0: "''0'' \<noteq> []" "\<forall>c\<in>set ''0''. isdigit c"
    and d1: "''1'' \<noteq> []" "\<forall>c\<in>set ''1''. isdigit c"
    by (simp_all add: isdigit_def)
  have s1: "sscanf_name_value ''cache-size=10MiB'' = (2, ''cache-size'', [] @ ''10'' @ ''MiB'')"
    and s2: "sscanf_name_value ''cache-size=10MB'' = (2, ''cache-size'', [] @ ''10'' @ ''MB'')"
    and s3: "sscanf_name_value ''cache-size=0B'' = (2, ''cache-size'', [] @ ''0'' @ ''B'')"
    and s4: "sscanf_name_value ''cache-size=-1KiB'' = (2, ''cache-size'', ''-'' @ ''1'' @ ''KiB'')"
    and s5: "sscanf_name_value ''cache-size=10'' = (2, ''cache-size'', [] @ ''10'' @ [])"
    and s6: "sscanf_name_value ''cache-size=10xyz'' = (2, ''cache-size'', [] @ ''10'' @ ''xyz'')"
    and s7: "sscanf_name_value ''cache-size=10MiBxyz'' =
      (2, ''cache-size'', [] @ ''10'' @ ''MiBxyz'')"
    by (simp_all add: scan_defs)
  have r1: "''MiB'' = [] \<or> \<not> isdigit (hd ''MiB'')"
    and r2: "''MB'' = [] \<or> \<not> isdigit (hd ''MB'')"
    and r3: "''B'' = [] \<or> \<not> isdigit (hd ''B'')"
    and r4: "''KiB'' = [] \<or> \<not> isdigit (hd ''KiB'')"
    and r5: "([]::string) = [] \<or> \<not> isdigit (hd [])"
    and r6: "''xyz'' = [] \<or> \<not> isdigit (hd ''xyz'')"
    and r7: "''MiBxyz'' = [] \<or> \<not> isdigit (hd ''MiBxyz'')"
    by (simp_all add: isdigit_def)
  have m: "spec_multiplier ''MiB'' = Some 1048576" "spec_multiplier ''MB'' = Some 1000000"
    "spec_multiplier ''B'' = Some 1" "spec_multiplier ''KiB'' = Some 1024"
    "spec_multiplier [] = None" "spec_multiplier ''xyz'' = None"
    "spec_multiplier ''MiBxyz'' = None"
    by (simp_all add: spec_multiplier_def spec_suffixes_def strcasecmp_eq0_def tolower_def)
  have v: "decimal ''10'' = 10" "decimal ''0'' = 0" "decimal ''1'' = 1"
    by (simp_all add: decimal_def)
  have w: "(- 1024 :: size_t) = 18446744073709550592" by simp
  let ?fc = "\<lambda>n::string. if n = ''lzma'' then Some n else None"
  let ?gn = "\<lambda>c::string. c"
  have c: "cacheSize (runtime (config example_state)) = 41943040"
    by (simp add: example_state_def)
  from cacheSize_parsing [OF s1 n g(1) d10 r1, of ?fc ?gn example_state]
    cacheSize_parsing [OF s2 n g(1) d10 r2, of ?fc ?gn example_state]
    cacheSize_parsing [OF s3 n g(1) d0 r3, of ?fc ?gn example_state]
    cacheSize_parsing [OF s4 n g(2) d1 r4, of ?fc ?gn example_state]
    cacheSize_parsing [OF s5 n g(1) d10 r5, of ?fc ?gn example_state]
    cacheSize_parsing [OF s6 n g(1) d10 r6, of ?fc ?gn example_state]
    cacheSize_parsing [OF s7 n g(1) d10 r7, of ?fc ?gn example_state] c
  show ?thesis by (simp add: m v w)
qed

text \<open>
  Claim C2, as stated, fails: for the value \<open>17179869185GiB\<close> the call returns true and
  \<open>runtime.cacheSize\<close> becomes 1073741824, which is not 17179869185 times \<open>1024 ^ 3\<close>.
  (The registry of compression methods is empty here; the cache size does not read it.)
\<close>

theorem cacheSize_parsing_counterexample:
  "parseOption (map_of []) id ''cache-size=17179869185GiB'' Runtime example_state =
     Returned True
       (example_state\<lparr>config := (config example_state)\<lparr>runtime :=
          (runtime (config example_state))\<lparr>cacheSize := 1073741824\<rparr>\<rparr>\<rparr>)
   \<and> (1073741824 :: nat) \<noteq> 17179869185 * 1024 ^ 3"
proof -
  have "(17179869185 * 1073741824 :: size_t) = 1073741824" by simp
  then show ?thesis
    by (simp add: parseOption_defs scan_defs set_runtime_cacheSize_def)
qed

lemma uint_wi64: "uint (word_of_int k :: size_t) = k mod 2 ^ 64"
  by (simp add: uint_word_of_int)

lemma uint_product:
  fixes scale :: u_int
  shows "uint ((word_of_int z :: size_t) * ucast scale) = (z * uint scale) mod 2 ^ 64"
proof -
  have b: "(ucast scale :: size_t) = word_of_int (uint scale)"
    by (rule ucast_eq)
  show ?thesis
    unfolding b wi_hom_mult uint_wi64 ..
qed

text \<open>
  Claim C10, as amended. The product is taken in 64-bit unsigned arithmetic and is not
  checked. For every value made of an optional sign, a run of digits whose number fits
  \<open>size_t\<close>, and a suffix for which the source has the factor \<open>scale\<close>, the call returns
  true and \<open>runtime.cacheSize\<close> is the product of the number and the factor reduced modulo
  \<open>2 ^ 64\<close>, however large the product is.
\<close>

theorem cacheSize_product_wraps:
  assumes "sscanf_name_value option = (2, nm, sg @ ds @ sfx)"
    and "strcasecmp_eq0 nm ''cache-size''"
    and "sg \<in> {[], ''+'', ''-''}" "ds \<noteq> []" "\<forall>c\<in>set ds. isdigit c"
    and "sfx = [] \<or> \<not> isdigit (hd sfx)" "decimal ds < 2 ^ 64"
    and "cacheSize_scale (map tolower sfx) = Some scale"
  shows "\<exists>st'. parseOption findCompression getName option Runtime st = Returned True st'
      \<and> uint (cacheSize (runtime (config st'))) =
          ((if sg = ''-'' then - int (decimal ds) else int (decimal ds)) * uint scale)
            mod 2 ^ 64"
  using cacheSize_core [OF assms(1-6), of findCompression getName st] assms(7,8)
    uint_product [of "zu_number sg ds" scale]
  by (simp add: set_runtime_cacheSize_def)

theorem cacheSize_product_wraps_witness:
  "\<exists>st'. parseOption (\<lambda>n. if n = ''lzma'' then Some n else None) (\<lambda>c. c)
       ''cache-size=17179869185GiB'' Runtime example_state = Returned True st'
     \<and> uint (cacheSize (runtime (config st'))) = 1073741824
     \<and> (2 :: int) ^ 64 < 17179869185 * 1073741824"
proof -
  have n: "strcasecmp_eq0 ''cache-size'' ''cache-size''" by (simp add: strcasecmp_eq0_def)
  have s: "sscanf_name_value ''cache-size=17179869185GiB'' =
      (2, ''cache-size'', [] @ ''17179869185'' @ ''GiB'')"
    by (simp add: scan_defs)
  have g: "([]::string) \<in> {[], ''+'', ''-''}" by simp
  have d: "''17179869185'' \<noteq> []" "\<forall>c\<in>set ''17179869185''. isdigit c"
    by (simp_all add: isdigit_def)
  have r: "''GiB'' = [] \<or> \<not> isdigit (hd ''GiB'')" by (simp add: isdigit_def)
  have v: "decimal ''17179869185'' = 17179869185" by (simp add: decimal_def)
  then have b: "decimal ''17179869185'' < 2 ^ 64" by simp
  have c: "cacheSize_scale (map tolower ''GiB'') = Some 1073741824"
    by (simp add: cacheSize_scale_def tolower_def)
  let ?fc = "\<lambda>n::string. if n = ''lzma'' then Some n else None"
  let ?gn = "\<lambda>c::string. c"
  from cacheSize_product_wraps [OF s n g d r b c, of ?fc ?gn example_state]
  show ?thesis by (simp add: v)
qed

text \<open>
  Claim C10, as stated, fails for a number that does not fit \<open>size_t\<close>: for the value
  \<open>99999999999999999999B\<close> the call returns true and \<open>runtime.cacheSize\<close> becomes
  18446744073709551615, the value that \<open>%zu\<close> stores, while the product of the number and
  the multiplier 1 reduced modulo \<open>2 ^ 64\<close> is 7766279631452241919.
\<close>

theorem cacheSize_product_wraps_counterexample:
  "parseOption (map_of []) id ''cache-size=99999999999999999999B'' Runtime example_state =
     Returned True
       (example_state\<lparr>config := (config example_state)\<lparr>runtime :=
          (runtime (config example_state))\<lparr>cacheSize := 18446744073709551615\<rparr>\<rparr>\<rparr>)
   \<and> (99999999999999999999 * 1) mod 2 ^ 64 = (7766279631452241919 :: nat)
   \<and> (18446744073709551615 :: nat) \<noteq> 7766279631452241919"
  by (simp add: parseOption_defs scan_defs set_runtime_cacheSize_def SIZE_MAX_def size_max)

section \<open>The frame of \<open>parseOption\<close>\<close>

text \<open>How a call ends does not depend on the state it starts in, and neither does the
  value it assigns; each case of the source is one of the following, for every state.\<close>

lemma parseToken_type:
  "parseToken nm ty = opc \<Longrightarrow>
     opc = oBadOption
   \<or> ty = Storable \<and> opc \<in> {oChunk_max_size, oBundle_max_payload_size, oBundle_compression_method}
   \<or> ty = Runtime \<and> opc \<in> {oRuntime_threads, oRuntime_cacheSize, oRuntime_exchange}"
  using parseToken_loop_found [of keywords_table nm ty]
  by (auto simp: parseToken_def keywords_table_def)

lemma compression_method_kind:
  "(\<forall>st. parseOption_compression_method fc gn hv v st = Returned False st)
   \<or> (\<exists>c. \<forall>st. parseOption_compression_method fc gn hv v st =
         Returned True
           (st\<lparr>config := (config st)\<lparr>storable :=
                  (storable (config st))\<lparr>bundle_compression_method := gn c\<rparr>\<rparr>,
               selectedCompression := Some c\<rparr>))"
proof -
  define found where "found =
    (if \<not> hv then None
     else if v = ''lzma'' then fc ''lzma''
     else if v = ''lzo1x_1'' \<or> v = ''lzo'' then fc ''lzo1x_1''
     else None)"
  show ?thesis
  proof (cases found)
    case None
    then have "\<forall>st. parseOption_compression_method fc gn hv v st = Returned False st"
      by (auto simp: found_def parseOption_compression_method_def split: if_splits)
    then show ?thesis by blast
  next
    case (Some c)
    then have "\<forall>st. parseOption_compression_method fc gn hv v st =
         Returned True
           (st\<lparr>config := (config st)\<lparr>storable :=
                  (storable (config st))\<lparr>bundle_compression_method := gn c\<rparr>\<rparr>,
               selectedCompression := Some c\<rparr>)"
      by (auto simp: found_def parseOption_compression_method_def
          SET_STORABLE_bundle_compression_method_def split: if_splits)
    then show ?thesis by blast
  qed
qed

lemma threads_kind:
  "(\<forall>st. parseOption_threads hv v st = Returned False st)
   \<or> (\<forall>st. parseOption_threads hv v st = Thrown (exInvalidThreadsValue v) st)
   \<or> (\<exists>x. \<forall>st. parseOption_threads hv v st =
         Returned True
           (st\<lparr>config := (config st)\<lparr>runtime := (runtime (config st))\<lparr>threads := x\<rparr>\<rparr>\<rparr>))"
proof (cases "scan_zu v")
  case Zu_input_failure
  then show ?thesis
    by (simp add: parseOption_threads_def sscanf_zu_n_def EOF_def)
next
  case Zu_matching_failure
  then show ?thesis
    by (simp add: parseOption_threads_def sscanf_zu_n_def)
next
  case (Zu_value x rest)
  show ?thesis
  proof (cases "hv \<and> \<not> (length v - length (dropWhile isspace rest) < length v \<or> x < 1)")
    case True
    with Zu_value have "\<forall>st. parseOption_threads hv v st =
         Returned True
           (st\<lparr>config := (config st)\<lparr>runtime := (runtime (config st))\<lparr>threads := x\<rparr>\<rparr>\<rparr>)"
      by (simp add: parseOption_threads_def sscanf_zu_n_def set_runtime_threads_def)
    then show ?thesis by blast
  next
    case False
    with Zu_value show ?thesis
      by (auto simp: parseOption_threads_def sscanf_zu_n_def)
  qed
qed

lemma cacheSize_kind:
  "(\<forall>st. parseOption_cacheSize hv v st = Returned False st)
   \<or> (\<exists>x. \<forall>st. parseOption_cacheSize hv v st =
         Returned True
           (st\<lparr>config := (config st)\<lparr>runtime := (runtime (config st))\<lparr>cacheSize := x\<rparr>\<rparr>\<rparr>))"
proof (cases "scan_zu v")
  case Zu_input_failure
  then show ?thesis
    by (simp add: parseOption_cacheSize_def sscanf_zu_s_n_def EOF_def)
next
  case Zu_matching_failure
  then show ?thesis
    by (simp add: parseOption_cacheSize_def sscanf_zu_s_n_def)
next
  case (Zu_value x rest)
  have i: "sscanf_zu_s_n v old = sscanf_zu_s_n v 0" for old
    using Zu_value by (simp add: sscanf_zu_s_n_def)
  obtain ret y suffix n where "sscanf_zu_s_n v 0 = (ret, y, suffix, n)"
    by (cases "sscanf_zu_s_n v 0") auto
  with i have r: "sscanf_zu_s_n v old = (ret, y, suffix, n)" for old
    by simp
  show ?thesis
  proof (cases "cacheSize_scale (map tolower suffix)")
    case None
    then show ?thesis
      by (simp add: parseOption_cacheSize_def r)
  next
    case (Some scale)
    show ?thesis
    proof (cases "hv \<and> ret = 2 \<and> \<not> n < length v")
      case True
      with Some r have "\<forall>st. parseOption_cacheSize hv v st =
         Returned True
           (st\<lparr>config := (config st)\<lparr>runtime :=
              (runtime (config st))\<lparr>cacheSize := y * ucast scale\<rparr>\<rparr>\<rparr>)"
        by (simp add: parseOption_cacheSize_def set_runtime_cacheSize_def)
      then show ?thesis by blast
    next
      case False
      with Some r show ?thesis
        by (auto simp: parseOption_cacheSize_def)
    qed
  qed
qed

lemma exchange_kind:
  "(\<forall>st. parseOption_exchange hv v st = Returned False st)
   \<or> (\<exists>x. \<forall>st. parseOption_exchange hv v st =
         Returned True
           (st\<lparr>config := (config st)\<lparr>runtime :=
              (runtime (config st))\<lparr>exchange := insert x (exchange (runtime (config st)))\<rparr>\<rparr>\<rparr>))"
proof (cases "hv \<and> v \<in> {''backups'', ''bundles'', ''index''}")
  case True
  then consider "v = ''backups''" | "v = ''bundles''" | "v = ''index''" by auto
  then show ?thesis
  proof cases
    case 1
    with True have "\<forall>st. parseOption_exchange hv v st =
         Returned True
           (st\<lparr>config := (config st)\<lparr>runtime := (runtime (config st))
              \<lparr>exchange := insert backups (exchange (runtime (config st)))\<rparr>\<rparr>\<rparr>)"
      by (simp add: parseOption_exchange_def runtime_exchange_set_def)
    then show ?thesis by blast
  next
    case 2
    with True have "\<forall>st. parseOption_exchange hv v st =
         Returned True
           (st\<lparr>config := (config st)\<lparr>runtime := (runtime (config st))
              \<lparr>exchange := insert bundles (exchange (runtime (config st)))\<rparr>\<rparr>\<rparr>)"
      by (simp add: parseOption_exchange_def runtime_exchange_set_def)
    then show ?thesis by blast
  next
    case 3
    with True have "\<forall>st. parseOption_exchange hv v st =
         Returned True
           (st\<lparr>config := (config st)\<lparr>runtime := (runtime (config st))
              \<lparr>exchange := insert index (exchange (runtime (config st)))\<rparr>\<rparr>\<rparr>)"
      by (simp add: parseOption_exchange_def runtime_exchange_set_def)
    then show ?thesis by blast
  qed
next
  case False
  then show ?thesis
    by (auto simp: parseOption_exchange_def)
qed

lemma parseOption_kind:
  "(\<forall>st. parseOption fc gn option ty st = Returned False st)
   \<or> (\<exists>v. \<forall>st. parseOption fc gn option ty st = Thrown (exInvalidThreadsValue v) st)
   \<or> ty = Storable \<and>
      (\<exists>c. \<forall>st. parseOption fc gn option ty st =
         Returned True
           (st\<lparr>config := (config st)\<lparr>storable :=
                  (storable (config st))\<lparr>bundle_compression_method := gn c\<rparr>\<rparr>,
               selectedCompression := Some c\<rparr>))
   \<or> ty = Runtime \<and>
      ((\<exists>x. \<forall>st. parseOption fc gn option ty st =
          Returned True
            (st\<lparr>config := (config st)\<lparr>runtime := (runtime (config st))\<lparr>threads := x\<rparr>\<rparr>\<rparr>))
       \<or> (\<exists>x. \<forall>st. parseOption fc gn option ty st =
          Returned True
            (st\<lparr>config := (config st)\<lparr>runtime := (runtime (config st))\<lparr>cacheSize := x\<rparr>\<rparr>\<rparr>))
       \<or> (\<exists>x. \<forall>st. parseOption fc gn option ty st =
          Returned True
            (st\<lparr>config := (config st)\<lparr>runtime := (runtime (config st))
               \<lparr>exchange := insert x (exchange (runtime (config st)))\<rparr>\<rparr>\<rparr>)))"
proof -
  obtain ret nm v where s: "sscanf_name_value option = (ret, nm, v)"
    by (cases "sscanf_name_value option") auto
  define opc where "opc = parseToken (if ret = 2 then nm else option) ty"
  note t = parseToken_type [OF opc_def [symmetric]]
  show ?thesis
  proof (cases opc)
    case oBadOption
    with s opc_def show ?thesis by (simp add: parseOption_def)
  next
    case oChunk_max_size
    with s opc_def show ?thesis by (simp add: parseOption_def)
  next
    case oBundle_max_payload_size
    with s opc_def show ?thesis by (simp add: parseOption_def)
  next
    case oBundle_compression_method
    with s opc_def have "parseOption fc gn option ty st =
        parseOption_compression_method fc gn (ret = 2) v st" for st
      by (simp add: parseOption_def)
    with compression_method_kind [of fc gn "ret = 2" v] t oBundle_compression_method
    show ?thesis by auto
  next
    case oRuntime_threads
    with s opc_def have "parseOption fc gn option ty st = parseOption_threads (ret = 2) v st" for st
      by (simp add: parseOption_def)
    with threads_kind [of "ret = 2" v] t oRuntime_threads
    show ?thesis by auto
  next
    case oRuntime_cacheSize
    with s opc_def have "parseOption fc gn option ty st = parseOption_cacheSize (ret = 2) v st" for st
      by (simp add: parseOption_def)
    with cacheSize_kind [of "ret = 2" v] t oRuntime_cacheSize
    show ?thesis by auto
  next
    case oRuntime_exchange
    with s opc_def have "parseOption fc gn option ty st = parseOption_exchange (ret = 2) v st" for st
      by (simp add: parseOption_def)
    with exchange_kind [of "ret = 2" v] t oRuntime_exchange
    show ?thesis by auto
  qed
qed

text \<open>
  Claim C8. For every token and category one of the following holds for every state the
  call starts in. The call returns false and leaves the state as it was. The call throws
  and leaves the state as it was. The category is \<open>Storable\<close> and the call returns true
  after assigning the compression field of the persisted record (and the selected
  compression of the process); the runtime settings and the other fields of the persisted
  record are as they were. The category is \<open>Runtime\<close> and the call returns true after
  assigning one of \<open>threads\<close>, \<open>cacheSize\<close> and \<open>exchange\<close> of the runtime settings; the
  other two and the persisted record are as they were. The value assigned is fixed by the
  token (for \<open>exchange\<close>, the element added is), not by the state before. So a call that
  returns false or throws leaves every field of both records unchanged.
\<close>

theorem parseOption_frame:
  "((\<forall>st. parseOption findCompression getName option ty st = Returned False st)
    \<or> (\<exists>v. \<forall>st. parseOption findCompression getName option ty st =
          Thrown (exInvalidThreadsValue v) st)
    \<or> ty = Storable \<and>
       (\<exists>c. \<forall>st. parseOption findCompression getName option ty st =
          Returned True
            (st\<lparr>config := (config st)\<lparr>storable :=
                   (storable (config st))\<lparr>bundle_compression_method := getName c\<rparr>\<rparr>,
                selectedCompression := Some c\<rparr>))
    \<or> ty = Runtime \<and>
       ((\<exists>x. \<forall>st. parseOption findCompression getName option ty st =
           Returned True
             (st\<lparr>config := (config st)\<lparr>runtime :=
                (runtime (config st))\<lparr>threads := x\<rparr>\<rparr>\<rparr>))
        \<or> (\<exists>x. \<forall>st. parseOption findCompression getName option ty st =
           Returned True
             (st\<lparr>config := (config st)\<lparr>runtime :=
                (runtime (config st))\<lparr>cacheSize := x\<rparr>\<rparr>\<rparr>))
        \<or> (\<exists>x. \<forall>st. parseOption findCompression getName option ty st =
           Returned True
             (st\<lparr>config := (config st)\<lparr>runtime := (runtime (config st))
                \<lparr>exchange := insert x (exchange (runtime (config st)))\<rparr>\<rparr>\<rparr>))))
   \<and> (parseOption findCompression getName option ty st = Returned False st' \<longrightarrow> st' = st)
   \<and> (parseOption findCompression getName option ty st = Thrown e st' \<longrightarrow> st' = st)"
proof -
  note k = parseOption_kind [of findCompression getName option ty]
  have "parseOption findCompression getName option ty st = Returned False st' \<longrightarrow> st' = st"
    using k by (elim disjE conjE exE) (auto dest: spec [of _ st])
  moreover
  have "parseOption findCompression getName option ty st = Thrown e st' \<longrightarrow> st' = st"
    using k by (elim disjE conjE exE) (auto dest: spec [of _ st])
  ultimately show ?thesis using k by blast
qed

theorem parseOption_frame_witness:
  "parseOption (\<lambda>n. if n = ''lzma'' then Some n else None) (\<lambda>c. c) ''threads=4'' Runtime example_state =
     Returned True
       (example_state\<lparr>config := (config example_state)\<lparr>runtime :=
          (runtime (config example_state))\<lparr>threads := 4\<rparr>\<rparr>\<rparr>)
   \<and> threads (runtime (config example_state)) = 2
   \<and> parseOption (\<lambda>n. if n = ''lzma'' then Some n else None) (\<lambda>c. c) ''threads'' Runtime example_state = Returned False example_state
   \<and> parseOption (\<lambda>n. if n = ''lzma'' then Some n else None) (\<lambda>c. c) ''threads=0'' Runtime example_state =
       Thrown (exInvalidThreadsValue ''0'') example_state"
proof -
  let ?fc = "\<lambda>n::string. if n = ''lzma'' then Some n else None"
  let ?gn = "\<lambda>c::string. c"
  let ?st4 = "example_state\<lparr>config := (config example_state)\<lparr>runtime :=
          (runtime (config example_state))\<lparr>threads := 4\<rparr>\<rparr>\<rparr>"
  have 1: "parseOption ?fc ?gn ''threads=4'' Runtime example_state = Returned True ?st4"
    by (simp add: parseOption_defs scan_defs set_runtime_threads_def)
  have 2: "\<exists>st'. parseOption ?fc ?gn ''threads'' Runtime example_state = Returned False st'"
    by (simp add: parseOption_defs scan_defs)
  have 3: "\<exists>st'. parseOption ?fc ?gn ''threads=0'' Runtime example_state =
      Thrown (exInvalidThreadsValue ''0'') st'"
    by (simp add: parseOption_defs scan_defs)
  from 2 obtain s2 where s2: "parseOption ?fc ?gn ''threads'' Runtime example_state =
      Returned False s2" ..
  from 3 obtain s3 where s3: "parseOption ?fc ?gn ''threads=0'' Runtime example_state =
      Thrown (exInvalidThreadsValue ''0'') s3" ..
  from parseOption_frame [where findCompression = ?fc and getName = ?gn
      and option = "''threads''" and ty = Runtime and st = example_state and st' = s2] s2
  have a: "s2 = example_state" by blast
  from parseOption_frame [where findCompression = ?fc and getName = ?gn
      and option = "''threads=0''" and ty = Runtime and st = example_state and st' = s3
      and e = "exInvalidThreadsValue ''0''"] s3
  have b: "s3 = example_state" by blast
  have c: "threads (runtime (config example_state)) = 2"
    by (simp add: example_state_def)
  from 1 s2 s3 a b c show ?thesis by simp
qed

section \<open>The edit workflow\<close>

text \<open>
  Claim C3. One call of \<open>editInteractively\<close> calls the editor once, with the text of the
  stored record. When the editor gives up, or the text it returns does not parse, the result
  is false and the stored record is the one before the call (aborted); when the text parses
  to a record whose text equals the text of the stored record, the result is false, the
  message "No changes made to config" is given and the stored record is the one before the
  call (no change); otherwise the result is true and the stored record is the parsed record
  (committed). There is no other outcome.
\<close>

theorem edit_commits_or_leaves_unchanged:
  assumes "spawnEditor (toString stored) (validate parse) = (ok, newConfigData)"
  shows
    "(\<not> ok \<longrightarrow> editInteractively spawnEditor parse toString stored =
        (False, stored, [SpawnEditor (toString stored)]))
     \<and> (ok \<and> parse newConfigData = None \<longrightarrow>
          editInteractively spawnEditor parse toString stored =
            (False, stored, [SpawnEditor (toString stored)]))
     \<and> (\<forall>c. ok \<and> parse newConfigData = Some c \<and> toString c = toString stored \<longrightarrow>
          editInteractively spawnEditor parse toString stored =
            (False, stored, [SpawnEditor (toString stored), No_changes_made_to_config]))
     \<and> (\<forall>c. ok \<and> parse newConfigData = Some c \<and> toString c \<noteq> toString stored \<longrightarrow>
          editInteractively spawnEditor parse toString stored =
            (True, c, [SpawnEditor (toString stored), Updating_configuration,
                       Configuration_successfully_updated (toString c)]))"
  using assms by (auto simp: editInteractively_def)

theorem edit_commits_or_leaves_unchanged_witness:
  "editInteractively (\<lambda>t v. (False, t)) (\<lambda>t. if CHR ''!'' \<in> set t then None else Some t)
      (\<lambda>c. c) ''old'' = (False, ''old'', [SpawnEditor ''old''])
   \<and> editInteractively (\<lambda>t v. (True, ''!'')) (\<lambda>t. if CHR ''!'' \<in> set t then None else Some t)
      (\<lambda>c. c) ''old'' = (False, ''old'', [SpawnEditor ''old''])
   \<and> editInteractively (\<lambda>t v. (True, t)) (\<lambda>t. if CHR ''!'' \<in> set t then None else Some t)
      (\<lambda>c. c) ''old'' = (False, ''old'', [SpawnEditor ''old'', No_changes_made_to_config])
   \<and> editInteractively (\<lambda>t v. (True, ''new'')) (\<lambda>t. if CHR ''!'' \<in> set t then None else Some t)
      (\<lambda>c. c) ''old'' =
        (True, ''new'', [SpawnEditor ''old'', Updating_configuration,
                         Configuration_successfully_updated ''new''])"
proof -
  let ?parse = "\<lambda>t::string. if CHR ''!'' \<in> set t then None else Some t"
  let ?toString = "\<lambda>c::string. c"
  note t = edit_commits_or_leaves_unchanged [where toString = ?toString and parse = ?parse
      and stored = "''old''"]
  have p: "?parse ''!'' = None" "?parse ''old'' = Some ''old''" "?parse ''new'' = Some ''new''"
    by simp_all
  have e: "(False, ''old'') = (False, ''old'')" "(True, ''!'') = (True, ''!'')"
    "(True, ''old'') = (True, ''old'')" "(True, ''new'') = (True, ''new'')"
    by simp_all
  note t1 = t [where spawnEditor = "\<lambda>t v. (False, t)" and ok = False
      and newConfigData = "''old''", OF e(1)]
  note t2 = t [where spawnEditor = "\<lambda>t v. (True, ''!'')" and ok = True
      and newConfigData = "''!''", OF e(2)]
  note t3 = t [where spawnEditor = "\<lambda>t v. (True, t)" and ok = True
      and newConfigData = "''old''", OF e(3)]
  note t4 = t [where spawnEditor = "\<lambda>t v. (True, ''new'')" and ok = True
      and newConfigData = "''new''", OF e(4)]
  have 1: "editInteractively (\<lambda>t v. (False, t)) ?parse ?toString ''old'' =
      (False, ''old'', [SpawnEditor ''old''])"
    using t1 [THEN conjunct1] by simp
  have 2: "editInteractively (\<lambda>t v. (True, ''!'')) ?parse ?toString ''old'' =
      (False, ''old'', [SpawnEditor ''old''])"
    using t2 [THEN conjunct2, THEN conjunct1] p(1) by simp
  have 3: "editInteractively (\<lambda>t v. (True, t)) ?parse ?toString ''old'' =
      (False, ''old'', [SpawnEditor ''old'', No_changes_made_to_config])"
    using t3 [THEN conjunct2, THEN conjunct2, THEN conjunct1, THEN spec, of "''old''"] p(2)
    by simp
  have 4: "editInteractively (\<lambda>t v. (True, ''new'')) ?parse ?toString ''old'' =
      (True, ''new'', [SpawnEditor ''old'', Updating_configuration,
                       Configuration_successfully_updated ''new''])"
    using t4 [THEN conjunct2, THEN conjunct2, THEN conjunct2, THEN spec, of "''new''"] p(3)
    by simp
  from 1 2 3 4 show ?thesis by blast
qed

end
